theory Spec2Isabelle
  imports Complex_Main "HOL-Library.List_Lexorder" "HOL-Library.Char_ord"
begin

section \<open>The Koe data set parser of auDeep (audeep/backend/parsers/koe.py)\<close>

text \<open>
  The parser looks at one directory: the audio files in it and the table
  \<^verbatim>\<open>metadata.tsv\<close>. Its methods are modelled as functions that take the parser object
  and the state of the file system and return the outcome of the call (a raised exception
  is \<open>Inl\<close>) together with the parser object as the call leaves it.
\<close>

subsection \<open>Python values, exceptions and the data the parser handles\<close>

text \<open>
  A Python \<^verbatim>\<open>float\<close> that is not NaN: an infinity, or \<open>Finite q\<close>, the double nearest
  to the rational \<open>q\<close>. A cell of the table holds a double, so there \<open>q\<close> is the value
  itself, and values compare as the rationals do.
\<close>

datatype pyfloat = MinusInf | Finite rat | PlusInf

instantiation pyfloat :: linorder
begin

fun less_eq_pyfloat :: "pyfloat \<Rightarrow> pyfloat \<Rightarrow> bool" where
  "less_eq_pyfloat MinusInf y = True"
| "less_eq_pyfloat (Finite p) MinusInf = False"
| "less_eq_pyfloat (Finite p) (Finite q) = (p \<le> q)"
| "less_eq_pyfloat (Finite p) PlusInf = True"
| "less_eq_pyfloat PlusInf PlusInf = True"
| "less_eq_pyfloat PlusInf y = False"

definition less_pyfloat :: "pyfloat \<Rightarrow> pyfloat \<Rightarrow> bool" where
  "less_pyfloat x y = (x \<le> y \<and> \<not> y \<le> x)"

instance
proof
  fix x y z :: pyfloat
  show "x < y \<longleftrightarrow> x \<le> y \<and> \<not> y \<le> x"
    by (simp add: less_pyfloat_def)
  show "x \<le> x"
    by (cases x) auto
  show "x \<le> y \<Longrightarrow> y \<le> z \<Longrightarrow> x \<le> z"
    by (cases x; cases y; cases z) auto
  show "x \<le> y \<Longrightarrow> y \<le> x \<Longrightarrow> x = y"
    by (cases x; cases y) auto
  show "x \<le> y \<or> y \<le> x"
    by (cases x; cases y) auto
qed

end

text \<open>
  A cell of the data frame that \<^verbatim>\<open>read_csv\<close> returns is a Python \<^verbatim>\<open>int\<close>,
  \<^verbatim>\<open>str\<close>, \<^verbatim>\<open>bool\<close> or \<^verbatim>\<open>float\<close>. A blank cell is the float NaN; \<open>CNaN i\<close> is
  a NaN held in the float object of identity \<open>i\<close> (two NaN cells are one object or two,
  as the reader made them).
\<close>

datatype cell = CInt int | CStr string | CBool bool | CFloat pyfloat | CNaN nat

text \<open>
  The numbers that \<^verbatim>\<open>_numfolds\<close> holds: it starts as the int 0 and takes the value of
  a fold cell only when the cell compared greater, which NaN and a str never do.
\<close>

datatype number = NInt int | NBool bool | NFloat pyfloat

fun number_value :: "number \<Rightarrow> pyfloat" where
  "number_value (NInt i) = Finite (of_int i)"
| "number_value (NBool b) = Finite (if b then 1 else 0)"
| "number_value (NFloat x) = x"

fun as_number :: "cell \<Rightarrow> number option" where
  "as_number (CInt i) = Some (NInt i)"
| "as_number (CBool b) = Some (NBool b)"
| "as_number (CFloat x) = Some (NFloat x)"
| "as_number (CStr s) = None"
| "as_number (CNaN i) = None"

text \<open>
  Equality of two cells as keys of a dict: the same object, or \<^verbatim>\<open>==\<close>. Numbers are
  equal by value whatever their types (\<^verbatim>\<open>1 == 1.0 == True\<close>), a str equals only the
  same str, and NaN equals nothing, so that a NaN key is found only by the very same
  object.
\<close>

fun key_eq :: "cell \<Rightarrow> cell \<Rightarrow> bool" where
  "key_eq (CStr s) (CStr t) = (s = t)"
| "key_eq (CNaN i) (CNaN j) = (i = j)"
| "key_eq a b =
     (case (as_number a, as_number b) of
        (Some x, Some y) \<Rightarrow> number_value x = number_value y
      | _ \<Rightarrow> False)"

text \<open>\<^verbatim>\<open>key in d\<close> and \<^verbatim>\<open>d[key]\<close> on a dict kept as a list in insertion order.\<close>

definition dict_contains :: "(cell \<times> cell) list \<Rightarrow> cell \<Rightarrow> bool" where
  "dict_contains d k = list_ex (\<lambda>entry. key_eq (fst entry) k) d"

definition dict_get :: "(cell \<times> cell) list \<Rightarrow> cell \<Rightarrow> cell option" where
  "dict_get d k = map_option snd (find (\<lambda>entry. key_eq (fst entry) k) d)"

datatype py_error = IOError string | TypeError | ValueError | IndexError | ReadCsvError

datatype split = TRAIN | VALID

datatype partition_tag = PartitionTag nat

type_synonym row = "cell \<times> cell \<times> cell \<times> cell \<times> cell"

text \<open>
  A data frame: the header and the rows (\<^verbatim>\<open>DataFrame.columns\<close>,
  \<^verbatim>\<open>DataFrame.values\<close>). A frame of pandas is rectangular: every row has one cell
  per column.
\<close>

record dataframe =
  columns :: "string list"
  frame_values :: "cell list list"

text \<open>
  The base directory as the parser sees it: the entries that \<^verbatim>\<open>glob("*")\<close> yields,
  each a name with the answer of \<^verbatim>\<open>is_file()\<close>, and what
  \<^verbatim>\<open>read_csv(meta_file, sep='\t')\<close> does on the table file (it returns a frame or
  raises, for instance on an empty file).
\<close>

record filesystem =
  entries :: "(string \<times> bool) list"
  read_csv :: "py_error + dataframe"

record instance_metadata =
  path :: string
  filename :: string
  label_nominal :: cell
  label_numeric :: cell
  cv_folds :: "split list"
  partition' :: "partition_tag option"

text \<open>The attributes of a \<^verbatim>\<open>KoeParser\<close>; \<open>None\<close> is Python's \<^verbatim>\<open>None\<close>.\<close>

record koe_parser =
  basedir :: string
  data :: "row list option"
  metadata :: "dataframe option"
  label_map_cache :: "(cell \<times> cell) list option"
  can_parse_cache :: "bool option"
  numfolds :: "number option"

definition KoeParser :: "string \<Rightarrow> koe_parser" where
  "KoeParser bd =
     \<lparr>basedir = bd, data = None, metadata = None, label_map_cache = None,
      can_parse_cache = None, numfolds = None\<rparr>"

subsection \<open>Strings and paths\<close>

text \<open>
  \<^verbatim>\<open>str.lower\<close> on the ASCII letters. A character outside ASCII never lowers to one
  of the four characters of \<^verbatim>\<open>.wav\<close>, so the test below is the source's.
\<close>

definition lower_char :: "char \<Rightarrow> char" where
  "lower_char c =
     (case map_of (zip ''ABCDEFGHIJKLMNOPQRSTUVWXYZ'' ''abcdefghijklmnopqrstuvwxyz'') c of
        Some l \<Rightarrow> l
      | None \<Rightarrow> c)"

definition lower :: "string \<Rightarrow> string" where
  "lower s = map lower_char s"

definition endswith :: "string \<Rightarrow> string \<Rightarrow> bool" where
  "endswith s suffix =
     (length suffix \<le> length s \<and> drop (length s - length suffix) s = suffix)"

text \<open>\<^verbatim>\<open>os.path.join\<close> of two components (posixpath).\<close>

definition os_path_join :: "string \<Rightarrow> string \<Rightarrow> string" where
  "os_path_join a b =
     (if b \<noteq> [] \<and> hd b = CHR ''/'' then b
      else if a = [] \<or> last a = CHR ''/'' then a @ b
      else a @ ''/'' @ b)"

subsection \<open>can\_parse\<close>

definition expected_header :: "string list" where
  "expected_header = [''id'', ''filename'', ''label'', ''label_enum'', ''fold'']"

text \<open>The sorted list \<^verbatim>\<open>files\<close> and the list \<^verbatim>\<open>file_names\<close> of its names.\<close>

definition wav_files :: "filesystem \<Rightarrow> (string \<times> bool) list" where
  "wav_files fs =
     sort_key fst
       (filter (\<lambda>file. snd file \<and> endswith (lower (fst file)) ''.wav'') (entries fs))"

definition file_names :: "filesystem \<Rightarrow> string list" where
  "file_names fs = map fst (wav_files fs)"

text \<open>\<^verbatim>\<open>os.path.isfile\<close> of a name joined to the base directory.\<close>

definition isfile :: "filesystem \<Rightarrow> string \<Rightarrow> bool" where
  "isfile fs name = ((name, True) \<in> set (entries fs))"

text \<open>
  The column \<^verbatim>\<open>filename\<close> of a frame whose header is the expected one: the second
  cell of every row. The names on disk are strs, and a cell equals a str only when it
  is that str, so the two Python sets are equal exactly when the two sets of cells are.
\<close>

definition metadata_file_names :: "dataframe \<Rightarrow> cell list" where
  "metadata_file_names df = map (\<lambda>r. r ! 1) (frame_values df)"

text \<open>
  Unpacking a row into five names raises \<^verbatim>\<open>ValueError\<close> unless the row has five cells.
\<close>

fun unpack5 :: "cell list \<Rightarrow> row option" where
  "unpack5 [sid, fname, label, label_enum, fold'] = Some (sid, fname, label, label_enum, fold')"
| "unpack5 _ = None"

text \<open>
  \<^verbatim>\<open>if fold > self._numfolds: self._numfolds = fold\<close>. A str against a number raises
  \<^verbatim>\<open>TypeError\<close>; NaN is greater than nothing; an int, a bool and a float compare with
  the number by value.
\<close>

fun update_numfolds :: "cell \<Rightarrow> number \<Rightarrow> py_error + number" where
  "update_numfolds (CStr s) n = Inl TypeError"
| "update_numfolds (CNaN i) n = Inr n"
| "update_numfolds (CInt i) n =
     Inr (if number_value (NInt i) > number_value n then NInt i else n)"
| "update_numfolds (CBool b) n =
     Inr (if number_value (NBool b) > number_value n then NBool b else n)"
| "update_numfolds (CFloat x) n =
     Inr (if number_value (NFloat x) > number_value n then NFloat x else n)"

text \<open>
  \<^verbatim>\<open>self._numfolds += 1\<close>: an int stays an int, a bool becomes an int, a float stays a
  float (the double nearest to the sum).
\<close>

fun add_one :: "number \<Rightarrow> number" where
  "add_one (NInt i) = NInt (i + 1)"
| "add_one (NBool b) = NInt ((if b then 1 else 0) + 1)"
| "add_one (NFloat (Finite q)) = NFloat (Finite (q + 1))"
| "add_one (NFloat x) = NFloat x"

text \<open>
  The loop over the rows. It works on \<^verbatim>\<open>_data\<close>, \<^verbatim>\<open>_label_map_cache\<close> and
  \<^verbatim>\<open>_numfolds\<close>, which \<^verbatim>\<open>can_parse\<close> has just set to the empty list, the empty
  dict and 0; the three are passed along and written back by \<open>can_parse\<close>, also when the
  loop raises.
\<close>

fun scan_rows ::
  "cell list list \<Rightarrow> row list \<times> (cell \<times> cell) list \<times> number \<Rightarrow>
     py_error option \<times> row list \<times> (cell \<times> cell) list \<times> number" where
  "scan_rows [] acc = (None, acc)"
| "scan_rows (r # rs) (d, m, n) =
     (case unpack5 r of
        None \<Rightarrow> (Some ValueError, d, m, n)
      | Some (sid, fname, label, label_enum, fold') \<Rightarrow>
          (let d' = d @ [(sid, fname, label, label_enum, fold')];
               m' = (if \<not> dict_contains m label then m @ [(label, label_enum)] else m)
           in case update_numfolds fold' n of
                Inl e \<Rightarrow> (Some e, d', m', n)
              | Inr n' \<Rightarrow> scan_rows rs (d', m', n')))"

definition can_parse :: "koe_parser \<Rightarrow> filesystem \<Rightarrow> (py_error + bool) \<times> koe_parser" where
  "can_parse self fs =
     (case can_parse_cache self of
        Some cached \<Rightarrow> (Inr cached, self)
      | None \<Rightarrow>
          if \<not> isfile fs ''metadata.tsv''
          then (Inr False, self\<lparr>can_parse_cache := Some False\<rparr>)
          else
            (case read_csv fs of
               Inl e \<Rightarrow> (Inl e, self)
             | Inr df \<Rightarrow>
                 if columns df \<noteq> expected_header
                 then (Inr False, self\<lparr>metadata := Some df, can_parse_cache := Some False\<rparr>)
                 else if set (map CStr (file_names fs)) \<noteq> set (metadata_file_names df)
                 then (Inr False, self\<lparr>metadata := Some df, can_parse_cache := Some False\<rparr>)
                 else
                   (case scan_rows (frame_values df) ([], [], NInt 0) of
                      (Some e, d, m, n) \<Rightarrow>
                        (Inl e,
                         self\<lparr>metadata := Some df, data := Some d,
                              label_map_cache := Some m, numfolds := Some n\<rparr>)
                    | (None, d, m, n) \<Rightarrow>
                        (Inr True,
                         self\<lparr>metadata := Some df, data := Some d,
                              label_map_cache := Some m, numfolds := Some (add_one n),
                              can_parse_cache := Some True\<rparr>))))"

subsection \<open>The derived properties and parse\<close>

definition unable_to_parse :: "koe_parser \<Rightarrow> py_error" where
  "unable_to_parse self = IOError (''unable to parse Koe dataset at '' @ basedir self)"

text \<open>\<^verbatim>\<open>len(None)\<close> raises \<^verbatim>\<open>TypeError\<close>.\<close>

definition num_instances :: "koe_parser \<Rightarrow> filesystem \<Rightarrow> (py_error + int) \<times> koe_parser" where
  "num_instances self fs =
     (case can_parse self fs of
        (Inl e, self') \<Rightarrow> (Inl e, self')
      | (Inr ok, self') \<Rightarrow>
          if \<not> ok then (Inl (unable_to_parse self'), self')
          else
            (case data self' of
               None \<Rightarrow> (Inl TypeError, self')
             | Some d \<Rightarrow> (Inr (int (length d)), self')))"

definition num_folds :: "koe_parser \<Rightarrow> filesystem \<Rightarrow> (py_error + number option) \<times> koe_parser" where
  "num_folds self fs =
     (case can_parse self fs of
        (Inl e, self') \<Rightarrow> (Inl e, self')
      | (Inr ok, self') \<Rightarrow>
          if \<not> ok then (Inl (unable_to_parse self'), self')
          else (Inr (numfolds self'), self'))"

definition label_map ::
  "koe_parser \<Rightarrow> filesystem \<Rightarrow> (py_error + (cell \<times> cell) list option) \<times> koe_parser" where
  "label_map self fs =
     (case can_parse self fs of
        (Inl e, self') \<Rightarrow> (Inl e, self')
      | (Inr ok, self') \<Rightarrow>
          if \<not> ok then (Inl (unable_to_parse self'), self')
          else (Inr (label_map_cache self'), self'))"

text \<open>
  \<^verbatim>\<open>[Split.TRAIN] * self._numfolds\<close>: a list times an int (a bool counts as 0 or 1; a
  count that is not positive gives the empty list); times a float or \<^verbatim>\<open>None\<close> it
  raises \<^verbatim>\<open>TypeError\<close>.
\<close>

fun train_times :: "number option \<Rightarrow> py_error + split list" where
  "train_times (Some (NInt n)) = Inr (replicate (nat n) TRAIN)"
| "train_times (Some (NBool b)) = Inr (replicate (if b then 1 else 0) TRAIN)"
| "train_times (Some (NFloat x)) = Inl TypeError"
| "train_times None = Inl TypeError"

text \<open>
  A cell as a list index: an int, or a bool (0 or 1); anything else raises
  \<^verbatim>\<open>TypeError\<close>.
\<close>

fun list_index :: "cell \<Rightarrow> int option" where
  "list_index (CInt i) = Some i"
| "list_index (CBool b) = Some (if b then 1 else 0)"
| "list_index c = None"

text \<open>
  \<^verbatim>\<open>cv_folds[fold] = Split.VALID\<close>: a negative index counts from the end of the list,
  an index out of range raises \<^verbatim>\<open>IndexError\<close>.
\<close>

definition set_valid :: "split list \<Rightarrow> cell \<Rightarrow> py_error + split list" where
  "set_valid folds fold' =
     (case list_index fold' of
        None \<Rightarrow> Inl TypeError
      | Some f \<Rightarrow>
          (let len = int (length folds);
               j = (if f < 0 then len + f else f)
           in if 0 \<le> j \<and> j < len then Inr (folds[nat j := VALID]) else Inl IndexError))"

text \<open>
  One turn of the loop of \<^verbatim>\<open>parse\<close>. \<^verbatim>\<open>os.path.join\<close> raises \<^verbatim>\<open>TypeError\<close> on a
  file name that is not a str. The field \<open>path\<close> holds the string given to
  \<^verbatim>\<open>Path\<close>, \<open>filename\<close> the \<^verbatim>\<open>str(filename)\<close> of a str.
\<close>

fun instance_of :: "string \<Rightarrow> number option \<Rightarrow> row \<Rightarrow> py_error + instance_metadata" where
  "instance_of bd nf (sid, CStr name, label, label_enum, fold') =
     (case train_times nf of
        Inl e \<Rightarrow> Inl e
      | Inr folds \<Rightarrow>
          (case set_valid folds fold' of
             Inl e \<Rightarrow> Inl e
           | Inr folds' \<Rightarrow>
               Inr \<lparr>path = os_path_join bd name, filename = name,
                    label_nominal = label, label_numeric = label_enum,
                    cv_folds = folds', partition' = None\<rparr>))"
| "instance_of bd nf (sid, fname, label, label_enum, fold') = Inl TypeError"

fun parse_loop ::
  "string \<Rightarrow> number option \<Rightarrow> row list \<Rightarrow> instance_metadata list \<Rightarrow>
     py_error + instance_metadata list" where
  "parse_loop bd nf [] meta_list = Inr meta_list"
| "parse_loop bd nf (r # rs) meta_list =
     (case instance_of bd nf r of
        Inl e \<Rightarrow> Inl e
      | Inr instance_metadata \<Rightarrow> parse_loop bd nf rs (meta_list @ [instance_metadata]))"

text \<open>Iterating over \<^verbatim>\<open>None\<close> raises \<^verbatim>\<open>TypeError\<close>.\<close>

definition parse ::
  "koe_parser \<Rightarrow> filesystem \<Rightarrow> (py_error + instance_metadata list) \<times> koe_parser" where
  "parse self fs =
     (case can_parse self fs of
        (Inl e, self') \<Rightarrow> (Inl e, self')
      | (Inr ok, self') \<Rightarrow>
          if \<not> ok then (Inl (unable_to_parse self'), self')
          else
            (case data self' of
               None \<Rightarrow> (Inl TypeError, self')
             | Some d \<Rightarrow> (parse_loop (basedir self') (numfolds self') d [], self')))"

subsection \<open>Sequences of calls\<close>

text \<open>
  A caller invokes \<^verbatim>\<open>can_parse()\<close> and \<^verbatim>\<open>parse()\<close> in any order, and the directory may
  change between two calls: a run is a list of calls, each with the state of the file system
  it meets, and yields the outcomes in order and the parser object at the end.
\<close>

datatype call = CanParse | Parse

type_synonym outcome = "(py_error + bool) + (py_error + instance_metadata list)"

fun call_method :: "call \<Rightarrow> koe_parser \<Rightarrow> filesystem \<Rightarrow> outcome \<times> koe_parser" where
  "call_method CanParse self fs = (case can_parse self fs of (r, self') \<Rightarrow> (Inl r, self'))"
| "call_method Parse self fs = (case parse self fs of (r, self') \<Rightarrow> (Inr r, self'))"

fun run_calls :: "koe_parser \<Rightarrow> (call \<times> filesystem) list \<Rightarrow> outcome list \<times> koe_parser" where
  "run_calls self [] = ([], self)"
| "run_calls self ((c, fs) # rest) =
     (case call_method c self fs of
        (r, self') \<Rightarrow> (case run_calls self' rest of (rs, self'') \<Rightarrow> (r # rs, self'')))"

subsection \<open>Data sets used as examples\<close>

text \<open>A directory with no audio file and a table that holds the header only.\<close>

definition empty_dir :: filesystem where
  "empty_dir =
     \<lparr>entries = [(''metadata.tsv'', True), (''readme.txt'', True), (''old.wav'', False)],
      read_csv = Inr \<lparr>columns = expected_header, frame_values = []\<rparr>\<rparr>"

text \<open>
  Two audio files (one with an upper-case extension), a directory whose name ends in
  \<^verbatim>\<open>.wav\<close>, a text file, and a table of three rows: one file name and one label occur
  twice, the folds are 0, 2 and 1. \<open>example_parser\<close> is the parser object after its
  validation, \<open>example_records\<close> what \<open>parse\<close> returns for it.
\<close>

definition example_table :: dataframe where
  "example_table =
     \<lparr>columns = expected_header,
      frame_values =
        [[CInt 1, CStr ''b.wav'', CStr ''dog'', CInt 5, CInt 0],
         [CInt 2, CStr ''a.WAV'', CStr ''cat'', CInt 7, CInt 2],
         [CInt 3, CStr ''b.wav'', CStr ''dog'', CInt 9, CInt 1]]\<rparr>"

definition example_dir :: filesystem where
  "example_dir =
     \<lparr>entries = [(''b.wav'', True), (''metadata.tsv'', True), (''a.WAV'', True),
                 (''old.wav'', False), (''notes.txt'', True)],
      read_csv = Inr example_table\<rparr>"

definition example_parser :: koe_parser where
  "example_parser =
     \<lparr>basedir = ''data'',
      data = Some [(CInt 1, CStr ''b.wav'', CStr ''dog'', CInt 5, CInt 0),
                   (CInt 2, CStr ''a.WAV'', CStr ''cat'', CInt 7, CInt 2),
                   (CInt 3, CStr ''b.wav'', CStr ''dog'', CInt 9, CInt 1)],
      metadata = Some example_table,
      label_map_cache = Some [(CStr ''dog'', CInt 5), (CStr ''cat'', CInt 7)],
      can_parse_cache = Some True, numfolds = Some (NInt 3)\<rparr>"


text \<open>
  Three directories that fail validation: one without the table, one whose table has two
  columns swapped in the header, one whose table names a file that is not on disk.
\<close>

definition no_metadata_dir :: filesystem where
  "no_metadata_dir =
     \<lparr>entries = [(''a.wav'', True), (''b.wav'', True)], read_csv = Inl ReadCsvError\<rparr>"

definition wrong_header_table :: dataframe where
  "wrong_header_table =
     \<lparr>columns = [''id'', ''filename'', ''label'', ''fold'', ''label_enum''],
      frame_values = [[CInt 1, CStr ''a.wav'', CStr ''dog'', CInt 0, CInt 5]]\<rparr>"

definition wrong_header_dir :: filesystem where
  "wrong_header_dir =
     \<lparr>entries = [(''a.wav'', True), (''metadata.tsv'', True)],
      read_csv = Inr wrong_header_table\<rparr>"

definition mismatch_table :: dataframe where
  "mismatch_table =
     \<lparr>columns = expected_header,
      frame_values =
        [[CInt 1, CStr ''a.wav'', CStr ''dog'', CInt 5, CInt 0],
         [CInt 2, CStr ''c.wav'', CStr ''cat'', CInt 7, CInt 1]]\<rparr>"

definition mismatch_dir :: filesystem where
  "mismatch_dir =
     \<lparr>entries = [(''a.wav'', True), (''b.wav'', True), (''metadata.tsv'', True)],
      read_csv = Inr mismatch_table\<rparr>"

text \<open>
  Directories that pass the three checks of the validation with a table that is not what
  the format asks for. Each has the audio files \<^verbatim>\<open>a.wav\<close> and \<^verbatim>\<open>b.wav\<close> and a table
  of two rows, built by \<open>two_rows\<close> from the label cells and the fold cells.
\<close>

definition two_rows :: "cell \<Rightarrow> cell \<Rightarrow> cell \<Rightarrow> cell \<Rightarrow> dataframe" where
  "two_rows label1 fold1 label2 fold2 =
     \<lparr>columns = expected_header,
      frame_values =
        [[CInt 1, CStr ''a.wav'', label1, CInt 5, fold1],
         [CInt 2, CStr ''b.wav'', label2, CInt 9, fold2]]\<rparr>"

definition two_files :: "dataframe \<Rightarrow> filesystem" where
  "two_files df =
     \<lparr>entries = [(''a.wav'', True), (''b.wav'', True), (''metadata.tsv'', True)],
      read_csv = Inr df\<rparr>"

text \<open>A fold cell that is a string.\<close>

definition str_fold_table :: dataframe where
  "str_fold_table = two_rows (CStr ''dog'') (CInt 0) (CStr ''cat'') (CStr ''x'')"

text \<open>Two blank label cells, read as NaN in two float objects.\<close>

definition nan_label_table :: dataframe where
  "nan_label_table = two_rows (CNaN 0) (CInt 0) (CNaN 1) (CInt 1)"

text \<open>Fold cells that are floats, negative, or below minus the fold count.\<close>

definition float_fold_table :: dataframe where
  "float_fold_table =
     two_rows (CStr ''dog'') (CFloat (Finite (1 / 2))) (CStr ''cat'') (CFloat (Finite (3 / 2)))"




section \<open>Properties\<close>

subsection \<open>Dict keys and the loop over the rows\<close>

lemma key_eq_sym: "key_eq a b \<Longrightarrow> key_eq b a"
  by (cases a; cases b) (auto split: option.splits)

lemma key_eq_trans: "key_eq a b \<Longrightarrow> key_eq b c \<Longrightarrow> key_eq a c"
  by (cases a; cases b; cases c) (auto split: option.splits)

lemma dict_contains_get: "dict_contains d k \<longleftrightarrow> dict_get d k \<noteq> None"
  by (force simp: dict_contains_def dict_get_def list_ex_iff find_None_iff)

lemma dict_get_append:
  "dict_get (d @ [(c, e)]) k =
     (case dict_get d k of Some v \<Rightarrow> Some v | None \<Rightarrow> if key_eq c k then Some e else None)"
  by (induction d) (auto simp: dict_get_def)

lemma unpack5_Some_ex:
  "unpack5 r = Some t \<longleftrightarrow> (\<exists>a b c e g. t = (a, b, c, e, g) \<and> r = [a, b, c, e, g])"
  by (cases r rule: unpack5.cases) auto

lemma update_numfolds_Inl: "update_numfolds g n = Inl err \<longleftrightarrow> err = TypeError \<and> (\<exists>s. g = CStr s)"
  by (cases g) auto

lemma update_numfolds_Inr:
  "(\<exists>n'. update_numfolds g n = Inr n') \<longleftrightarrow> (\<forall>s. g \<noteq> CStr s)"
  by (cases g) auto

lemma scan_rows_Cons_row:
  "scan_rows ([a, b, c, e, g] # rs) (d, m, n) =
     (case update_numfolds g n of
        Inl err \<Rightarrow>
          (Some err, d @ [(a, b, c, e, g)],
           (if \<not> dict_contains m c then m @ [(c, e)] else m), n)
      | Inr n' \<Rightarrow>
          scan_rows rs (d @ [(a, b, c, e, g)],
                        (if \<not> dict_contains m c then m @ [(c, e)] else m), n'))"
  by (simp add: Let_def)

lemma scan_rows_Cons_None:
  assumes "scan_rows (r # rs) (d, m, n) = (None, res)"
  shows "\<exists>a b c e g n'. r = [a, b, c, e, g] \<and> update_numfolds g n = Inr n' \<and>
           scan_rows rs (d @ [(a, b, c, e, g)],
                         (if \<not> dict_contains m c then m @ [(c, e)] else m), n') = (None, res)"
proof -
  from assms have "unpack5 r \<noteq> None"
    by (auto split: option.splits)
  then obtain a b c e g where r: "r = [a, b, c, e, g]"
    by (auto simp: unpack5_Some_ex)
  from assms obtain n' where g: "update_numfolds g n = Inr n'"
    unfolding r scan_rows_Cons_row by (cases "update_numfolds g n") auto
  from assms have "scan_rows rs (d @ [(a, b, c, e, g)],
      (if \<not> dict_contains m c then m @ [(c, e)] else m), n') = (None, res)"
    unfolding r scan_rows_Cons_row g by simp
  with r g show ?thesis by blast
qed

lemma scan_rows_ok_iff:
  "fst (scan_rows rs acc) = None \<longleftrightarrow>
     (\<forall>r\<in>set rs. \<exists>a b c e g. r = [a, b, c, e, g] \<and> (\<forall>s. g \<noteq> CStr s))"
proof (induction rs arbitrary: acc)
  case Nil
  show ?case by simp
next
  case (Cons r rs)
  obtain d m n where acc: "acc = (d, m, n)" by (cases acc) auto
  show ?case
  proof
    assume "fst (scan_rows (r # rs) acc) = None"
    then obtain res where "scan_rows (r # rs) (d, m, n) = (None, res)"
      unfolding acc by (cases "scan_rows (r # rs) (d, m, n)") auto
    from scan_rows_Cons_None[OF this] obtain a b c e g n' where
      r: "r = [a, b, c, e, g]" and g: "update_numfolds g n = Inr n'" and
      rest: "scan_rows rs (d @ [(a, b, c, e, g)],
                         (if \<not> dict_contains m c then m @ [(c, e)] else m), n') = (None, res)"
      by blast
    from g have nostr: "\<forall>s. g \<noteq> CStr s" using update_numfolds_Inr[of g n] by blast
    from rest have "fst (scan_rows rs (d @ [(a, b, c, e, g)],
                         (if \<not> dict_contains m c then m @ [(c, e)] else m), n')) = None" by simp
    with Cons.IH have "\<forall>r\<in>set rs. \<exists>a b c e g. r = [a, b, c, e, g] \<and> (\<forall>s. g \<noteq> CStr s)"
      by blast
    with r nostr show "\<forall>r\<in>set (r # rs). \<exists>a b c e g. r = [a, b, c, e, g] \<and> (\<forall>s. g \<noteq> CStr s)"
      by simp
  next
    assume all: "\<forall>r\<in>set (r # rs). \<exists>a b c e g. r = [a, b, c, e, g] \<and> (\<forall>s. g \<noteq> CStr s)"
    then obtain a b c e g where r: "r = [a, b, c, e, g]" and nostr: "\<forall>s. g \<noteq> CStr s"
      by auto
    from nostr obtain n' where g: "update_numfolds g n = Inr n'"
      using update_numfolds_Inr[of g n] by blast
    from all have "\<forall>r\<in>set rs. \<exists>a b c e g. r = [a, b, c, e, g] \<and> (\<forall>s. g \<noteq> CStr s)" by simp
    with Cons.IH have "fst (scan_rows rs (d @ [(a, b, c, e, g)],
                         (if \<not> dict_contains m c then m @ [(c, e)] else m), n')) = None" by blast
    then show "fst (scan_rows (r # rs) acc) = None"
      unfolding acc r scan_rows_Cons_row g by simp
  qed
qed

lemma scan_rows_raises:
  "fst (scan_rows rs acc) = Some err \<Longrightarrow> err = TypeError \<or> err = ValueError"
proof (induction rs arbitrary: acc)
  case Nil
  then show ?case by simp
next
  case (Cons r rs)
  obtain d m n where acc: "acc = (d, m, n)" by (cases acc) auto
  show ?case
  proof (cases "unpack5 r")
    case None
    with Cons.prems show ?thesis unfolding acc by simp
  next
    case (Some t)
    then obtain a b c e g where r: "r = [a, b, c, e, g]"
      by (auto simp: unpack5_Some_ex)
    show ?thesis
    proof (cases "update_numfolds g n")
      case (Inl e')
      then have "e' = TypeError" by (simp add: update_numfolds_Inl)
      with Cons.prems Inl show ?thesis unfolding acc r scan_rows_Cons_row by simp
    next
      case (Inr n')
      with Cons.prems have "fst (scan_rows rs (d @ [(a, b, c, e, g)],
                         (if \<not> dict_contains m c then m @ [(c, e)] else m), n')) = Some err"
        unfolding acc r scan_rows_Cons_row by simp
      then show ?thesis by (rule Cons.IH)
    qed
  qed
qed

lemma scan_rows_data:
  "scan_rows rs (d, m, n) = (None, d', m', n') \<Longrightarrow>
     d' = d @ map (\<lambda>r. (r ! 0, r ! 1, r ! 2, r ! 3, r ! 4)) rs"
proof (induction rs arbitrary: d m n)
  case Nil
  then show ?case by simp
next
  case (Cons r rs)
  from scan_rows_Cons_None[OF Cons.prems] obtain a b c e g n1 where
      r: "r = [a, b, c, e, g]" and
      rest: "scan_rows rs (d @ [(a, b, c, e, g)],
                         (if \<not> dict_contains m c then m @ [(c, e)] else m), n1) = (None, d', m', n')"
      by blast
  from Cons.IH[OF rest] show ?case by (simp add: r)
qed

lemma scan_rows_label_map:
  "scan_rows rs (d, m, n) = (None, d', m', n') \<Longrightarrow>
     dict_get m' l =
       (case dict_get m l of
          Some v \<Rightarrow> Some v
        | None \<Rightarrow> map_option (\<lambda>r. r ! 3) (find (\<lambda>r. key_eq (r ! 2) l) rs))"
proof (induction rs arbitrary: d m n)
  case Nil
  then show ?case by (simp split: option.splits)
next
  case (Cons r rs)
  from scan_rows_Cons_None[OF Cons.prems] obtain a b c e g n1 where
      r: "r = [a, b, c, e, g]" and
      rest: "scan_rows rs (d @ [(a, b, c, e, g)],
                         (if \<not> dict_contains m c then m @ [(c, e)] else m), n1) = (None, d', m', n')"
      by blast
  let ?m1 = "if \<not> dict_contains m c then m @ [(c, e)] else m"
  have step: "dict_get ?m1 l =
      (case dict_get m l of Some v \<Rightarrow> Some v | None \<Rightarrow> if key_eq c l then Some e else None)"
  proof (cases "dict_contains m c")
    case False
    then show ?thesis by (simp add: dict_get_append)
  next
    case True
    then obtain entry where entry: "entry \<in> set m" "key_eq (fst entry) c"
      by (auto simp: dict_contains_def list_ex_iff)
    have "dict_get m l \<noteq> None" if "key_eq c l"
    proof -
      from entry that have "key_eq (fst entry) l" by (blast intro: key_eq_trans)
      with entry have "dict_contains m l" by (auto simp: dict_contains_def list_ex_iff)
      then show ?thesis by (simp add: dict_contains_get)
    qed
    with True show ?thesis by (auto split: option.splits)
  qed
  from Cons.IH[OF rest] have "dict_get m' l =
       (case dict_get ?m1 l of
          Some v \<Rightarrow> Some v
        | None \<Rightarrow> map_option (\<lambda>r. r ! 3) (find (\<lambda>r. key_eq (r ! 2) l) rs))" .
  then show ?case
    unfolding step by (simp add: r split: option.splits)
qed

subsection \<open>The fold count that the loop computes\<close>

lemma Finite_le [simp]: "Finite p \<le> Finite q \<longleftrightarrow> p \<le> q"
  by simp

lemma Finite_less [simp]: "Finite p < Finite q \<longleftrightarrow> p < q"
  by (auto simp: less_pyfloat_def)


lemma update_numfolds_int:
  "update_numfolds (CInt f) (NInt k) = Inr (NInt (max k f))"
  by (simp add: max_def)




lemma finite_fold_values: "finite {f. \<exists>r\<in>set rs. r ! 4 = CInt f}"
proof (induction rs)
  case Nil
  show ?case by simp
next
  case (Cons r rs)
  have "{f. \<exists>x\<in>set (r # rs). x ! 4 = CInt f} = {f. r ! 4 = CInt f} \<union> {f. \<exists>x\<in>set rs. x ! 4 = CInt f}"
    by auto
  moreover have "finite {f. r ! 4 = CInt f}"
    by (cases "r ! 4") auto
  ultimately show ?case using Cons.IH by simp
qed

lemma scan_rows_int_folds:
  "scan_rows rs (d, m, NInt k) = (None, d', m', n') \<Longrightarrow>
   \<forall>r\<in>set rs. \<exists>f. r ! 4 = CInt f \<Longrightarrow>
   n' = NInt (Max (insert k {f. \<exists>r\<in>set rs. r ! 4 = CInt f}))"
proof (induction rs arbitrary: d m k)
  case Nil
  then show ?case by simp
next
  case (Cons r rs)
  from scan_rows_Cons_None[OF Cons.prems(1)] obtain a b c e g n1 where
      r: "r = [a, b, c, e, g]" and g: "update_numfolds g (NInt k) = Inr n1" and
      rest: "scan_rows rs (d @ [(a, b, c, e, g)],
                         (if \<not> dict_contains m c then m @ [(c, e)] else m), n1) = (None, d', m', n')"
      by blast
  from Cons.prems(2) obtain f where f: "g = CInt f" by (auto simp: r)
  from g have n1: "n1 = NInt (max k f)" unfolding f update_numfolds_int by simp
  let ?S = "{f. \<exists>x\<in>set rs. x ! 4 = CInt f}"
  have S: "{h. \<exists>x\<in>set (r # rs). x ! 4 = CInt h} = insert f ?S"
    by (auto simp: r f)
  have fin: "finite ?S" by (rule finite_fold_values)
  from Cons.prems(2) have "\<forall>r\<in>set rs. \<exists>f. r ! 4 = CInt f" by simp
  from Cons.IH[OF rest[unfolded n1] this] have "n' = NInt (Max (insert (max k f) ?S))" .
  also have "Max (insert (max k f) ?S) = Max (insert k (insert f ?S))"
    using fin by (cases "?S = {}") (auto simp: max.assoc)
  finally show ?case by (simp only: S)
qed

subsection \<open>The first call of can\_parse and a successful validation\<close>

lemma can_parse_cached: "can_parse_cache self = Some b \<Longrightarrow> can_parse self fs = (Inr b, self)"
  by (simp add: can_parse_def)

lemma set_file_names:
  "set (file_names fs) =
     {name. (name, True) \<in> set (entries fs) \<and> endswith (lower name) ''.wav''}"
  by (force simp: file_names_def wav_files_def)

lemma image_CStr_file_names:
  "set (map CStr (file_names fs)) =
     CStr ` {name. (name, True) \<in> set (entries fs) \<and> endswith (lower name) ''.wav''}"
  by (simp add: set_file_names)

lemma can_parse_first:
  "can_parse_cache self = None \<Longrightarrow>
   can_parse self fs =
     (if \<not> isfile fs ''metadata.tsv''
      then (Inr False, self\<lparr>can_parse_cache := Some False\<rparr>)
      else
        (case read_csv fs of
           Inl e \<Rightarrow> (Inl e, self)
         | Inr df \<Rightarrow>
             if columns df \<noteq> expected_header
             then (Inr False, self\<lparr>metadata := Some df, can_parse_cache := Some False\<rparr>)
             else if set (map CStr (file_names fs)) \<noteq> set (metadata_file_names df)
             then (Inr False, self\<lparr>metadata := Some df, can_parse_cache := Some False\<rparr>)
             else
               (case scan_rows (frame_values df) ([], [], NInt 0) of
                  (Some e, d, m, n) \<Rightarrow>
                    (Inl e,
                     self\<lparr>metadata := Some df, data := Some d,
                          label_map_cache := Some m, numfolds := Some n\<rparr>)
                | (None, d, m, n) \<Rightarrow>
                    (Inr True,
                     self\<lparr>metadata := Some df, data := Some d,
                          label_map_cache := Some m, numfolds := Some (add_one n),
                          can_parse_cache := Some True\<rparr>))))"
  by (simp add: can_parse_def)

lemma can_parse_first_outcome:
  assumes "can_parse_cache self = None"
  shows "fst (can_parse self fs) =
     (if \<not> isfile fs ''metadata.tsv'' then Inr False
      else
        (case read_csv fs of
           Inl e \<Rightarrow> Inl e
         | Inr df \<Rightarrow>
             if columns df \<noteq> expected_header \<or>
                set (map CStr (file_names fs)) \<noteq> set (metadata_file_names df)
             then Inr False
             else (case fst (scan_rows (frame_values df) ([], [], NInt 0)) of
                     None \<Rightarrow> Inr True
                   | Some e \<Rightarrow> Inl e)))"
  unfolding can_parse_first[OF assms]
  by (simp split: sum.splits prod.splits option.splits)

lemma can_parse_sets_cache:
  assumes "can_parse self fs = (Inr b, self')"
  shows "can_parse_cache self' = Some b"
proof (cases "can_parse_cache self")
  case None
  from assms show ?thesis
    unfolding can_parse_first[OF None]
    by (auto split: if_splits sum.splits prod.splits option.splits)
next
  case (Some c)
  from assms Some show ?thesis by (auto simp: can_parse_cached[OF Some])
qed

lemma can_parse_raise_keeps_cache:
  assumes "can_parse self fs = (Inl err, self')"
  shows "can_parse_cache self = None \<and> can_parse_cache self' = None \<and>
         isfile fs ''metadata.tsv'' \<and>
         (read_csv fs = Inl err \<or>
          (\<exists>df. read_csv fs = Inr df \<and>
             fst (scan_rows (frame_values df) ([], [], NInt 0)) = Some err))"
proof (cases "can_parse_cache self")
  case None
  from assms show ?thesis
    unfolding can_parse_first[OF None] using None
    by (auto split: if_splits sum.splits prod.splits option.splits)
next
  case (Some c)
  from assms Some show ?thesis by (auto simp: can_parse_cached[OF Some])
qed

lemma example_can_parse:
  "can_parse (KoeParser ''data'') example_dir = (Inr True, example_parser)"
  by code_simp


lemma can_parse_True:
  assumes "can_parse self fs = (Inr True, s)" and "can_parse_cache self = None"
  obtains df d m n where
    "isfile fs ''metadata.tsv''" and "read_csv fs = Inr df" and
    "columns df = expected_header" and
    "set (map CStr (file_names fs)) = set (metadata_file_names df)" and
    "scan_rows (frame_values df) ([], [], NInt 0) = (None, d, m, n)" and
    "s = self\<lparr>metadata := Some df, data := Some d, label_map_cache := Some m,
              numfolds := Some (add_one n), can_parse_cache := Some True\<rparr>"
  using assms
  by (auto simp: can_parse_first split: if_splits sum.splits prod.splits option.splits)

lemma validated:
  assumes "can_parse (KoeParser bd) fs = (Inr True, s)"
  obtains df d m n where
    "isfile fs ''metadata.tsv''" and "read_csv fs = Inr df" and
    "columns df = expected_header" and
    "set (map CStr (file_names fs)) = set (metadata_file_names df)" and
    "scan_rows (frame_values df) ([], [], NInt 0) = (None, d, m, n)" and
    "\<forall>r\<in>set (frame_values df).
        \<exists>a name c e g. r = [a, CStr name, c, e, g] \<and> (\<forall>s. g \<noteq> CStr s)" and
    "\<forall>l. dict_get m l =
           map_option (\<lambda>r. r ! 3) (find (\<lambda>r. key_eq (r ! 2) l) (frame_values df))" and
    "s = \<lparr>basedir = bd,
          data = Some (map (\<lambda>r. (r ! 0, r ! 1, r ! 2, r ! 3, r ! 4)) (frame_values df)),
          metadata = Some df, label_map_cache = Some m, can_parse_cache = Some True,
          numfolds = Some (add_one n)\<rparr>"
proof -
  have fresh: "can_parse_cache (KoeParser bd) = None" by (simp add: KoeParser_def)
  from can_parse_True[OF assms fresh] obtain df d m n where
    f: "isfile fs ''metadata.tsv''" and r: "read_csv fs = Inr df" and
    h: "columns df = expected_header" and
    e: "set (map CStr (file_names fs)) = set (metadata_file_names df)" and
    sc: "scan_rows (frame_values df) ([], [], NInt 0) = (None, d, m, n)" and
    s: "s = (KoeParser bd)\<lparr>metadata := Some df, data := Some d, label_map_cache := Some m,
              numfolds := Some (add_one n), can_parse_cache := Some True\<rparr>"
    by blast
  from sc have "fst (scan_rows (frame_values df) ([], [], NInt 0)) = None" by simp
  with scan_rows_ok_iff[of "frame_values df" "([], [], NInt 0)"]
  have ok: "\<forall>r\<in>set (frame_values df). \<exists>a b c e g. r = [a, b, c, e, g] \<and> (\<forall>s. g \<noteq> CStr s)"
    by blast
  have shape: "\<exists>a name c e g. r = [a, CStr name, c, e, g] \<and> (\<forall>s. g \<noteq> CStr s)"
    if r: "r \<in> set (frame_values df)" for r
  proof -
    from ok r obtain a b c e g where r5: "r = [a, b, c, e, g]" and g: "\<forall>s. g \<noteq> CStr s"
      by blast
    from r have "r ! 1 \<in> set (metadata_file_names df)"
      by (simp add: metadata_file_names_def)
    with e have "r ! 1 \<in> set (map CStr (file_names fs))" by simp
    then obtain name where "r ! 1 = CStr name" by auto
    with r5 have "b = CStr name" by simp
    with r5 g show ?thesis by blast
  qed
  have lm: "\<forall>l. dict_get m l =
      map_option (\<lambda>r. r ! 3) (find (\<lambda>r. key_eq (r ! 2) l) (frame_values df))"
    using scan_rows_label_map[OF sc] by (simp add: dict_get_def)
  have d: "d = map (\<lambda>r. (r ! 0, r ! 1, r ! 2, r ! 3, r ! 4)) (frame_values df)"
    using scan_rows_data[OF sc] by simp
  have s': "s = \<lparr>basedir = bd,
          data = Some (map (\<lambda>r. (r ! 0, r ! 1, r ! 2, r ! 3, r ! 4)) (frame_values df)),
          metadata = Some df, label_map_cache = Some m, can_parse_cache = Some True,
          numfolds = Some (add_one n)\<rparr>"
    unfolding s d[symmetric] by (simp add: KoeParser_def)
  from shape have shape': "\<forall>r\<in>set (frame_values df).
        \<exists>a name c e g. r = [a, CStr name, c, e, g] \<and> (\<forall>s. g \<noteq> CStr s)" by blast
  from that[OF f r h e sc shape' lm s'] show thesis .
qed

subsection \<open>Calls on a parser that holds a cached result\<close>

lemma parse_cached:
  "can_parse_cache self = Some b \<Longrightarrow>
   parse self fs =
     (if \<not> b then (Inl (unable_to_parse self), self)
      else (case data self of
              None \<Rightarrow> (Inl TypeError, self)
            | Some d \<Rightarrow> (parse_loop (basedir self) (numfolds self) d [], self)))"
  by (simp add: parse_def can_parse_cached)

lemma call_method_cached:
  assumes "can_parse_cache self = Some b"
  shows "call_method c self fs' = (fst (call_method c self fs), self)"
  by (cases c) (simp_all add: can_parse_cached[OF assms] parse_cached[OF assms] split: option.splits)

lemma run_calls_cached:
  assumes "can_parse_cache self = Some b"
  shows "run_calls self calls = (map (\<lambda>(c, fs'). fst (call_method c self fs)) calls, self)"
proof (induction calls)
  case Nil
  show ?case by simp
next
  case (Cons x calls)
  obtain c fs' where x: "x = (c, fs')" by (cases x) auto
  show ?case
    unfolding x by (simp add: call_method_cached[OF assms, of c fs' fs] Cons.IH)
qed

lemma str_fold_can_parse:
  "can_parse (KoeParser ''data'') (two_files str_fold_table) =
     (Inl TypeError,
      \<lparr>basedir = ''data'',
       data = Some [(CInt 1, CStr ''a.wav'', CStr ''dog'', CInt 5, CInt 0),
                    (CInt 2, CStr ''b.wav'', CStr ''cat'', CInt 9, CStr ''x'')],
       metadata = Some str_fold_table,
       label_map_cache = Some [(CStr ''dog'', CInt 5), (CStr ''cat'', CInt 9)],
       can_parse_cache = None, numfolds = Some (NInt 0)\<rparr>)"
  by code_simp

subsection \<open>Keys that are strings\<close>

lemma key_eq_CStr: "key_eq c (CStr s) \<longleftrightarrow> c = CStr s"
  by (cases c) (auto split: option.splits)

subsection \<open>The loop of parse\<close>










lemma instance_of_no_str:
  assumes "\<forall>name. b \<noteq> CStr name"
  shows "instance_of bd nf (a, b, c, e, g) = Inl TypeError"
  using assms by (cases b) simp_all





subsection \<open>parse after a successful validation\<close>














section \<open>The claims\<close>

text \<open>
  C9. A data set with no audio file and a table that holds only the right header passes
  validation; for it \<open>num_instances\<close> is 0, \<open>parse\<close> returns the empty list and
  \<open>num_folds\<close> is 1, the accumulator's 0 plus one.
\<close>

theorem empty_dataset:
  assumes no_audio: "\<forall>file\<in>set (entries fs). \<not> (snd file \<and> endswith (lower (fst file)) ''.wav'')"
    and meta: "isfile fs ''metadata.tsv''"
    and table: "read_csv fs = Inr \<lparr>columns = expected_header, frame_values = []\<rparr>"
  shows "fst (can_parse (KoeParser bd) fs) = Inr True \<and>
         fst (num_instances (KoeParser bd) fs) = Inr 0 \<and>
         fst (parse (KoeParser bd) fs) = Inr [] \<and>
         fst (num_folds (KoeParser bd) fs) = Inr (Some (NInt 1))"
proof -
  from no_audio have "filter (\<lambda>file. snd file \<and> endswith (lower (fst file)) ''.wav'') (entries fs) = []"
    by (simp add: filter_empty_conv)
  then have names: "file_names fs = []"
    by (simp add: file_names_def wav_files_def)
  have cp: "can_parse (KoeParser bd) fs =
      (Inr True, \<lparr>basedir = bd, data = Some [],
                  metadata = Some \<lparr>columns = expected_header, frame_values = []\<rparr>,
                  label_map_cache = Some [], can_parse_cache = Some True,
                  numfolds = Some (NInt 1)\<rparr>)"
    using meta by (simp add: can_parse_def KoeParser_def table names metadata_file_names_def)
  show ?thesis
    by (simp add: cp num_instances_def parse_def num_folds_def)
qed

theorem empty_dataset_witness:
  "fst (can_parse (KoeParser ''data'') empty_dir) = Inr True \<and>
   fst (num_instances (KoeParser ''data'') empty_dir) = Inr 0 \<and>
   fst (parse (KoeParser ''data'') empty_dir) = Inr [] \<and>
   fst (num_folds (KoeParser ''data'') empty_dir) = Inr (Some (NInt 1))"
proof -
  have a: "\<forall>file\<in>set (entries empty_dir). \<not> (snd file \<and> endswith (lower (fst file)) ''.wav'')"
    by (simp add: empty_dir_def endswith_def lower_def lower_char_def)
  have b: "isfile empty_dir ''metadata.tsv''"
    by (simp add: empty_dir_def isfile_def)
  have c: "read_csv empty_dir = Inr \<lparr>columns = expected_header, frame_values = []\<rparr>"
    by (simp add: empty_dir_def)
  from empty_dataset[OF a b c] show ?thesis .
qed

text \<open>
  C2. When validation succeeds, the fold values of the table are integers and one of them
  is non-negative (so also when the table has a row and all its fold values are
  non-negative integers), \<open>num_folds\<close> is one plus the greatest fold value of the table,
  whether or not every index below it is used.
\<close>

theorem num_folds_is_max_plus_one:
  assumes ok: "can_parse (KoeParser bd) fs = (Inr True, s)"
    and table: "read_csv fs = Inr df"
    and ints: "\<forall>r\<in>set (frame_values df). \<exists>f. r ! 4 = CInt f"
    and nonneg: "\<exists>r\<in>set (frame_values df). \<exists>f. r ! 4 = CInt f \<and> 0 \<le> f"
  shows "num_folds (KoeParser bd) fs =
           (Inr (Some (NInt (1 + Max {f. \<exists>r\<in>set (frame_values df). r ! 4 = CInt f}))), s) \<and>
         num_folds s fs' =
           (Inr (Some (NInt (1 + Max {f. \<exists>r\<in>set (frame_values df). r ! 4 = CInt f}))), s)"
proof -
  let ?S = "{f. \<exists>r\<in>set (frame_values df). r ! 4 = CInt f}"
  obtain df' d m n where df': "read_csv fs = Inr df'" and
    sc: "scan_rows (frame_values df') ([], [], NInt 0) = (None, d, m, n)" and
    s: "s = \<lparr>basedir = bd,
          data = Some (map (\<lambda>r. (r ! 0, r ! 1, r ! 2, r ! 3, r ! 4)) (frame_values df')),
          metadata = Some df', label_map_cache = Some m, can_parse_cache = Some True,
          numfolds = Some (add_one n)\<rparr>"
    by (rule validated[OF ok])
  from df' table have eq: "df' = df" by simp
  have n: "n = NInt (Max (insert 0 ?S))"
    by (rule scan_rows_int_folds[OF sc[unfolded eq] ints])
  have nf: "numfolds s = Some (NInt (Max (insert 0 ?S) + 1))"
    and cache: "can_parse_cache s = Some True"
    unfolding s n by simp_all
  have fin: "finite ?S" by (rule finite_fold_values)
  from nonneg obtain g where g: "g \<in> ?S" and g0: "0 \<le> g" by blast
  from g have ne: "?S \<noteq> {}" by blast
  have "g \<le> Max ?S" by (rule Max_ge[OF fin g])
  with g0 have "0 \<le> Max ?S" by linarith
  then have "max 0 (Max ?S) = Max ?S" by (simp add: max_def)
  moreover have "Max (insert 0 ?S) = max 0 (Max ?S)" by (rule Max_insert[OF fin ne])
  ultimately have nf': "numfolds s = Some (NInt (1 + Max ?S))" using nf by simp
  have a: "num_folds (KoeParser bd) fs = (Inr (Some (NInt (1 + Max ?S))), s)"
    by (simp add: num_folds_def ok nf')
  have b: "num_folds s fs' = (Inr (Some (NInt (1 + Max ?S))), s)"
    by (simp add: num_folds_def can_parse_cached[OF cache] nf')
  from a b show ?thesis by (rule conjI)
qed

theorem num_folds_is_max_plus_one_witness:
  "fst (num_folds (KoeParser ''data'') example_dir) = Inr (Some (NInt 3))"
proof -
  have t: "read_csv example_dir = Inr example_table" by (simp add: example_dir_def)
  have S: "{f. \<exists>r\<in>set (frame_values example_table). r ! 4 = CInt f} = {0, 2, 1}"
    by (auto simp: example_table_def)
  have i: "\<forall>r\<in>set (frame_values example_table). \<exists>f. r ! 4 = CInt f"
    by (simp add: example_table_def)
  have n: "\<exists>r\<in>set (frame_values example_table). \<exists>f. r ! 4 = CInt f \<and> 0 \<le> f"
    by (simp add: example_table_def)
  have "fst (num_folds (KoeParser ''data'') example_dir) =
          Inr (Some (NInt (1 + Max {f. \<exists>r\<in>set (frame_values example_table). r ! 4 = CInt f})))"
    using num_folds_is_max_plus_one[OF example_can_parse t i n] by simp
  then show ?thesis unfolding S by simp
qed

text \<open>
  C10. A call of \<open>can_parse\<close> that returns false writes neither the row list nor the label
  map nor the fold count: they are as before the call, so unset on a parser fresh from its
  constructor. The call writes the result cache, and the parsed table when the table file
  exists (the failure is then at the header or at the comparison of the file names); a call
  served from the cache writes nothing.
\<close>

theorem can_parse_false_leaves_caches_unset:
  assumes "can_parse self fs = (Inr False, s)"
  shows "data s = data self \<and> label_map_cache s = label_map_cache self \<and>
         numfolds s = numfolds self \<and> basedir s = basedir self \<and>
         can_parse_cache s = Some False \<and>
         (can_parse_cache self = None \<and> \<not> isfile fs ''metadata.tsv'' \<longrightarrow>
            metadata s = metadata self) \<and>
         (can_parse_cache self = None \<and> isfile fs ''metadata.tsv'' \<longrightarrow>
            (\<exists>df. read_csv fs = Inr df \<and> metadata s = Some df)) \<and>
         (can_parse_cache self \<noteq> None \<longrightarrow> s = self) \<and>
         (self = KoeParser bd \<longrightarrow>
            data s = None \<and> label_map_cache s = None \<and> numfolds s = None)"
proof (cases "can_parse_cache self")
  case None
  from assms have
    "(\<not> isfile fs ''metadata.tsv'' \<and> s = self\<lparr>can_parse_cache := Some False\<rparr>) \<or>
     (isfile fs ''metadata.tsv'' \<and>
      (\<exists>df. read_csv fs = Inr df \<and>
            s = self\<lparr>metadata := Some df, can_parse_cache := Some False\<rparr>))"
    unfolding can_parse_first[OF None]
    by (auto split: if_splits sum.splits prod.splits option.splits)
  then show ?thesis
    using None by (auto simp: KoeParser_def)
next
  case (Some b)
  from assms have "s = self" and "b = False" by (simp_all add: can_parse_cached[OF Some])
  then show ?thesis using Some by (auto simp: KoeParser_def)
qed

theorem can_parse_false_leaves_caches_unset_witness:
  "can_parse (KoeParser ''data'') no_metadata_dir =
     (Inr False, \<lparr>basedir = ''data'', data = None, metadata = None, label_map_cache = None,
                  can_parse_cache = Some False, numfolds = None\<rparr>) \<and>
   can_parse (KoeParser ''data'') wrong_header_dir =
     (Inr False, \<lparr>basedir = ''data'', data = None, metadata = Some wrong_header_table,
                  label_map_cache = None, can_parse_cache = Some False, numfolds = None\<rparr>) \<and>
   can_parse (KoeParser ''data'') mismatch_dir =
     (Inr False, \<lparr>basedir = ''data'', data = None, metadata = Some mismatch_table,
                  label_map_cache = None, can_parse_cache = Some False, numfolds = None\<rparr>)"
proof -
  obtain s1 where s1: "can_parse (KoeParser ''data'') no_metadata_dir = (Inr False, s1)"
    by (simp add: can_parse_def KoeParser_def no_metadata_dir_def isfile_def)
  obtain s2 where s2: "can_parse (KoeParser ''data'') wrong_header_dir = (Inr False, s2)"
    by (simp add: can_parse_def KoeParser_def wrong_header_dir_def isfile_def
        wrong_header_table_def expected_header_def)
  have "set (map CStr (file_names mismatch_dir)) \<noteq> set (metadata_file_names mismatch_table)"
    by code_simp
  then obtain s3 where s3: "can_parse (KoeParser ''data'') mismatch_dir = (Inr False, s3)"
    by (simp add: can_parse_def KoeParser_def mismatch_dir_def isfile_def mismatch_table_def)
  have f1: "\<not> isfile no_metadata_dir ''metadata.tsv''"
    by (simp add: no_metadata_dir_def isfile_def)
  have f2: "isfile wrong_header_dir ''metadata.tsv''" "read_csv wrong_header_dir = Inr wrong_header_table"
    by (simp_all add: wrong_header_dir_def isfile_def)
  have f3: "isfile mismatch_dir ''metadata.tsv''" "read_csv mismatch_dir = Inr mismatch_table"
    by (simp_all add: mismatch_dir_def isfile_def)
  have n: "can_parse_cache (KoeParser ''data'') = None" by (simp add: KoeParser_def)
  have "s1 = \<lparr>basedir = ''data'', data = None, metadata = None, label_map_cache = None,
                  can_parse_cache = Some False, numfolds = None\<rparr>"
    using can_parse_false_leaves_caches_unset[OF s1, of "''data''"] f1 n
    by (cases s1) (simp add: KoeParser_def)
  moreover have "s2 = \<lparr>basedir = ''data'', data = None, metadata = Some wrong_header_table,
                  label_map_cache = None, can_parse_cache = Some False, numfolds = None\<rparr>"
    using can_parse_false_leaves_caches_unset[OF s2, of "''data''"] f2 n
    by (cases s2) (simp add: KoeParser_def)
  moreover have "s3 = \<lparr>basedir = ''data'', data = None, metadata = Some mismatch_table,
                  label_map_cache = None, can_parse_cache = Some False, numfolds = None\<rparr>"
    using can_parse_false_leaves_caches_unset[OF s3, of "''data''"] f3 n
    by (cases s3) (simp add: KoeParser_def)
  ultimately show ?thesis using s1 s2 s3 by simp
qed

text \<open>
  C6, as the code has it. \<open>can_parse\<close> is memoized from the first call that returns: once
  a call has returned a boolean, the result cache holds it; every later call of
  \<open>can_parse\<close> returns the same boolean, every later call of \<open>parse\<close> returns what
  \<open>parse\<close> returns on the directory of that call, and no call changes the parser object,
  whatever the file system holds at the time of the call (so nothing is read from it), for
  every sequence of calls. A call that raises leaves the result cache unset, as it found
  it; it raises only when the table file exists and the reader of the table raises or a
  row stops the loop (a fold cell that is a string).
\<close>

theorem can_parse_memoized:
  "(can_parse self fs = (Inr b, self') \<longrightarrow>
      can_parse_cache self' = Some b \<and>
      (\<forall>fs'. can_parse self' fs' = (Inr b, self')) \<and>
      (\<forall>fs'. parse self' fs' = (fst (parse self' fs), self')) \<and>
      (\<forall>calls. run_calls self' calls =
                 (map (\<lambda>(c, fs'). fst (call_method c self' fs)) calls, self'))) \<and>
   (can_parse self fs = (Inl err, self') \<longrightarrow>
      can_parse_cache self = None \<and> can_parse_cache self' = None \<and>
      isfile fs ''metadata.tsv'' \<and>
      (read_csv fs = Inl err \<or>
       (\<exists>df. read_csv fs = Inr df \<and>
          \<not> (\<forall>r\<in>set (frame_values df).
                \<exists>a b c e g. r = [a, b, c, e, g] \<and> (\<forall>s. g \<noteq> CStr s)))))"
proof (intro conjI impI)
  assume first: "can_parse self fs = (Inr b, self')"
  show "can_parse_cache self' = Some b" by (rule can_parse_sets_cache[OF first])
  then have cache: "can_parse_cache self' = Some b" .
  show "\<forall>fs'. can_parse self' fs' = (Inr b, self')"
    using can_parse_cached[OF cache] by blast
  have "parse self' fs' = (fst (parse self' fs), self')" for fs'
    using call_method_cached[OF cache, of Parse fs' fs]
    by (simp split: prod.splits)
  then show "\<forall>fs'. parse self' fs' = (fst (parse self' fs), self')" by blast
  show "\<forall>calls. run_calls self' calls =
                 (map (\<lambda>(c, fs'). fst (call_method c self' fs)) calls, self')"
    using run_calls_cached[OF cache] by blast
next
  assume raised: "can_parse self fs = (Inl err, self')"
  note k = can_parse_raise_keeps_cache[OF raised]
  from k show "can_parse_cache self = None" by blast
  from k show "can_parse_cache self' = None" by blast
  from k show "isfile fs ''metadata.tsv''" by blast
  from k have "read_csv fs = Inl err \<or>
          (\<exists>df. read_csv fs = Inr df \<and>
             fst (scan_rows (frame_values df) ([], [], NInt 0)) = Some err)" by blast
  then show "read_csv fs = Inl err \<or>
       (\<exists>df. read_csv fs = Inr df \<and>
          \<not> (\<forall>r\<in>set (frame_values df).
                \<exists>a b c e g. r = [a, b, c, e, g] \<and> (\<forall>s. g \<noteq> CStr s)))"
  proof
    assume "read_csv fs = Inl err"
    then show ?thesis by (rule disjI1)
  next
    assume "\<exists>df. read_csv fs = Inr df \<and>
             fst (scan_rows (frame_values df) ([], [], NInt 0)) = Some err"
    then obtain df where df: "read_csv fs = Inr df"
      and sc: "fst (scan_rows (frame_values df) ([], [], NInt 0)) = Some err" by blast
    from sc have "fst (scan_rows (frame_values df) ([], [], NInt 0)) \<noteq> None" by simp
    with scan_rows_ok_iff[of "frame_values df" "([], [], NInt 0)"]
    have "\<not> (\<forall>r\<in>set (frame_values df).
                \<exists>a b c e g. r = [a, b, c, e, g] \<and> (\<forall>s. g \<noteq> CStr s))" by blast
    with df show ?thesis by blast
  qed
qed

theorem can_parse_memoized_witness:
  "can_parse example_parser empty_dir = (Inr True, example_parser) \<and>
   parse example_parser no_metadata_dir = (fst (parse example_parser example_dir), example_parser) \<and>
   run_calls example_parser [(Parse, wrong_header_dir), (CanParse, empty_dir), (Parse, mismatch_dir)] =
     ([Inr (fst (parse example_parser example_dir)), Inl (Inr True),
       Inr (fst (parse example_parser example_dir))], example_parser) \<and>
   isfile (two_files str_fold_table) ''metadata.tsv''"
proof -
  note m = can_parse_memoized[of "KoeParser ''data''" example_dir True example_parser,
      THEN conjunct1, rule_format, OF example_can_parse]
  from m have a: "can_parse example_parser empty_dir = (Inr True, example_parser)" by blast
  from m have p: "\<forall>fs'. parse example_parser fs' = (fst (parse example_parser example_dir), example_parser)"
    by blast
  from m have r: "run_calls example_parser [(Parse, wrong_header_dir), (CanParse, empty_dir), (Parse, mismatch_dir)] =
      (map (\<lambda>(c, fs'). fst (call_method c example_parser example_dir))
         [(Parse, wrong_header_dir), (CanParse, empty_dir), (Parse, mismatch_dir)], example_parser)"
    by blast
  have c: "fst (call_method CanParse example_parser example_dir) = Inl (Inr True)"
    using a m by (simp split: prod.splits)
  have d: "fst (call_method Parse example_parser example_dir) = Inr (fst (parse example_parser example_dir))"
    by (simp split: prod.splits)
  from p have p': "parse example_parser no_metadata_dir =
      (fst (parse example_parser example_dir), example_parser)" by (rule spec)
  from r have r': "run_calls example_parser
      [(Parse, wrong_header_dir), (CanParse, empty_dir), (Parse, mismatch_dir)] =
     ([Inr (fst (parse example_parser example_dir)), Inl (Inr True),
       Inr (fst (parse example_parser example_dir))], example_parser)"
    by (simp only: list.map prod.case c d)
  have e: "isfile (two_files str_fold_table) ''metadata.tsv''"
    using can_parse_memoized[of "KoeParser ''data''" "two_files str_fold_table" True _ TypeError,
        THEN conjunct2, rule_format, OF str_fold_can_parse]
    by (rule conjunct2[THEN conjunct2, THEN conjunct1])
  from a p' r' e show ?thesis by (intro conjI)
qed

text \<open>
  The claim C6 as stated (the first call fixes the boolean result, every later call
  returns it without reading the file system) fails when the first call raises: on the
  table with the fold cell \<^verbatim>\<open>x\<close> the call raises \<^verbatim>\<open>TypeError\<close> and leaves the result
  cache unset, and the next call on the same object validates whatever directory it then
  finds, returning true on one and false on another.
\<close>

theorem can_parse_not_memoized_counterexample:
  "fst (can_parse (KoeParser ''data'') (two_files str_fold_table)) = Inl TypeError \<and>
   can_parse_cache (snd (can_parse (KoeParser ''data'') (two_files str_fold_table))) = None \<and>
   fst (can_parse (snd (can_parse (KoeParser ''data'') (two_files str_fold_table))) example_dir) =
     Inr True \<and>
   fst (can_parse (snd (can_parse (KoeParser ''data'') (two_files str_fold_table)))
          no_metadata_dir) = Inr False"
  by code_simp

text \<open>
  C4, as the code has it. On a parser that holds no cached result, \<open>can_parse\<close> returns
  false exactly when the table file is absent, or the table is read and its header is not
  the expected one, or the header is right and the audio file names on disk are not the
  file names of the table. It returns true exactly when the file is there, the table is
  read, header and file names agree, and no fold cell is a string (integers, floats, NaN
  and booleans all pass). In the cases left it raises: the reader of the table raises, or
  the loop meets a fold cell that is a string.
\<close>

theorem can_parse_first_call:
  assumes fresh: "can_parse_cache self = None"
  shows
    "(fst (can_parse self fs) = Inr False \<longleftrightarrow>
        \<not> isfile fs ''metadata.tsv'' \<or>
        (\<exists>df. read_csv fs = Inr df \<and>
           (columns df \<noteq> expected_header \<or>
            CStr ` {name. (name, True) \<in> set (entries fs) \<and> endswith (lower name) ''.wav''} \<noteq>
              set (metadata_file_names df)))) \<and>
     (fst (can_parse self fs) = Inr True \<longleftrightarrow>
        isfile fs ''metadata.tsv'' \<and>
        (\<exists>df. read_csv fs = Inr df \<and> columns df = expected_header \<and>
           CStr ` {name. (name, True) \<in> set (entries fs) \<and> endswith (lower name) ''.wav''} =
             set (metadata_file_names df) \<and>
           (\<forall>r\<in>set (frame_values df).
               \<exists>a b c e g. r = [a, b, c, e, g] \<and> (\<forall>s. g \<noteq> CStr s)))) \<and>
     ((\<exists>err. fst (can_parse self fs) = Inl err) \<longleftrightarrow>
        isfile fs ''metadata.tsv'' \<and>
        ((\<exists>err. read_csv fs = Inl err) \<or>
         (\<exists>df. read_csv fs = Inr df \<and> columns df = expected_header \<and>
            CStr ` {name. (name, True) \<in> set (entries fs) \<and> endswith (lower name) ''.wav''} =
              set (metadata_file_names df) \<and>
            \<not> (\<forall>r\<in>set (frame_values df).
                  \<exists>a b c e g. r = [a, b, c, e, g] \<and> (\<forall>s. g \<noteq> CStr s)))))"
proof (cases "isfile fs ''metadata.tsv''")
  case False
  then have "fst (can_parse self fs) = Inr False"
    by (simp add: can_parse_first_outcome[OF fresh])
  with False show ?thesis by simp
next
  case True
  show ?thesis
  proof (cases "read_csv fs")
    case (Inl err)
    with True have "fst (can_parse self fs) = Inl err"
      by (simp add: can_parse_first_outcome[OF fresh])
    with True Inl show ?thesis by simp
  next
    case (Inr df)
    let ?bad = "columns df \<noteq> expected_header \<or>
       CStr ` {name. (name, True) \<in> set (entries fs) \<and> endswith (lower name) ''.wav''} \<noteq>
         set (metadata_file_names df)"
    let ?rows_ok = "\<forall>r\<in>set (frame_values df).
        \<exists>a b c e g. r = [a, b, c, e, g] \<and> (\<forall>s. g \<noteq> CStr s)"
    have out: "fst (can_parse self fs) =
        (if ?bad then Inr False
         else (case fst (scan_rows (frame_values df) ([], [], NInt 0)) of
                 None \<Rightarrow> Inr True | Some e \<Rightarrow> Inl e))"
      using True Inr
      by (simp add: can_parse_first_outcome[OF fresh] image_CStr_file_names[symmetric])
    show ?thesis
    proof (cases ?bad)
      case bad: True
      with out have "fst (can_parse self fs) = Inr False" by simp
      with True Inr bad show ?thesis by auto
    next
      case good: False
      show ?thesis
      proof (cases "fst (scan_rows (frame_values df) ([], [], NInt 0))")
        case None
        with scan_rows_ok_iff[of "frame_values df" "([], [], NInt 0)"] have ok: ?rows_ok
          by blast
        from out good None have "fst (can_parse self fs) = Inr True" by simp
        with True Inr good ok show ?thesis by auto
      next
        case (Some e)
        then have "fst (scan_rows (frame_values df) ([], [], NInt 0)) \<noteq> None" by simp
        with scan_rows_ok_iff[of "frame_values df" "([], [], NInt 0)"] have nok: "\<not> ?rows_ok"
          by blast
        from out good Some have "fst (can_parse self fs) = Inl e" by simp
        with True Inr good nok show ?thesis by auto
      qed
    qed
  qed
qed

theorem can_parse_first_call_witness:
  "fst (can_parse (KoeParser ''data'') (two_files float_fold_table)) = Inr True \<and>
   fst (can_parse (KoeParser ''data'') no_metadata_dir) = Inr False \<and>
   fst (can_parse (KoeParser ''data'') mismatch_dir) = Inr False"
proof -
  have n: "can_parse_cache (KoeParser ''data'') = None" by (simp add: KoeParser_def)
  note t = can_parse_first_call[OF n]
  have e1: "isfile (two_files float_fold_table) ''metadata.tsv''"
    and e2: "read_csv (two_files float_fold_table) = Inr float_fold_table"
    by (simp_all add: two_files_def isfile_def)
  have e3: "columns float_fold_table = expected_header"
    and e5: "\<forall>r\<in>set (frame_values float_fold_table).
               \<exists>a b c e g. r = [a, b, c, e, g] \<and> (\<forall>s. g \<noteq> CStr s)"
    by (simp_all add: float_fold_table_def two_rows_def)
  have "set (map CStr (file_names (two_files float_fold_table))) =
      set (metadata_file_names float_fold_table)"
    by code_simp
  then have e4: "CStr ` {name. (name, True) \<in> set (entries (two_files float_fold_table)) \<and>
        endswith (lower name) ''.wav''} = set (metadata_file_names float_fold_table)"
    by (simp only: image_CStr_file_names)
  have "isfile (two_files float_fold_table) ''metadata.tsv'' \<and>
        (\<exists>df. read_csv (two_files float_fold_table) = Inr df \<and> columns df = expected_header \<and>
           CStr ` {name. (name, True) \<in> set (entries (two_files float_fold_table)) \<and>
                    endswith (lower name) ''.wav''} =
             set (metadata_file_names df) \<and>
           (\<forall>r\<in>set (frame_values df).
               \<exists>a b c e g. r = [a, b, c, e, g] \<and> (\<forall>s. g \<noteq> CStr s)))"
    by (intro conjI exI[of _ float_fold_table] e1 e2 e3 e4 e5)
  then have a: "fst (can_parse (KoeParser ''data'') (two_files float_fold_table)) = Inr True"
    by (rule t[of "two_files float_fold_table", THEN conjunct2, THEN conjunct1, THEN iffD2])
  have "\<not> isfile no_metadata_dir ''metadata.tsv''"
    by (simp add: no_metadata_dir_def isfile_def)
  then have b: "fst (can_parse (KoeParser ''data'') no_metadata_dir) = Inr False"
    by (intro t[of no_metadata_dir, THEN conjunct1, THEN iffD2] disjI1)
  have m2: "read_csv mismatch_dir = Inr mismatch_table"
    by (simp add: mismatch_dir_def)
  have "set (map CStr (file_names mismatch_dir)) \<noteq> set (metadata_file_names mismatch_table)"
    by code_simp
  then have m4: "CStr ` {name. (name, True) \<in> set (entries mismatch_dir) \<and> endswith (lower name) ''.wav''} \<noteq>
      set (metadata_file_names mismatch_table)"
    unfolding image_CStr_file_names .
  have c: "fst (can_parse (KoeParser ''data'') mismatch_dir) = Inr False"
    by (intro t[of mismatch_dir, THEN conjunct1, THEN iffD2] disjI2 exI[of _ mismatch_table]
        conjI m2 m4)
  from a b c show ?thesis by (intro conjI)
qed

text \<open>
  The claim C4 as stated (false in the three cases, true otherwise, never an exception)
  fails on a table whose fold cell is the string \<^verbatim>\<open>x\<close>: the file is there, the header is
  right, the file names agree, and the call raises \<^verbatim>\<open>TypeError\<close>.
\<close>

theorem can_parse_raises_counterexample:
  "isfile (two_files str_fold_table) ''metadata.tsv'' \<and>
   read_csv (two_files str_fold_table) = Inr str_fold_table \<and>
   columns str_fold_table = expected_header \<and>
   set (map CStr (file_names (two_files str_fold_table))) =
     set (metadata_file_names str_fold_table) \<and>
   fst (can_parse (KoeParser ''data'') (two_files str_fold_table)) = Inl TypeError"
  by code_simp

text \<open>
  C3, as the code has it. When validation succeeds, the label map is read by the keys of a
  Python dict: looking a key up gives the numeric code of the first row whose label cell
  equals the key (the same string, or a number of the same value), and nothing when no row
  has such a label; so a label that is a string is bound to the code of the first row that
  carries it, and a later row with an equal label, whatever its code, leaves the binding
  as it is. A blank label cell is NaN, which equals nothing: it is a label of its own
  unless another cell holds the very same float object.
\<close>

theorem label_map_first_occurrence:
  assumes ok: "can_parse (KoeParser bd) fs = (Inr True, s)"
    and table: "read_csv fs = Inr df"
  shows "\<exists>m. label_map (KoeParser bd) fs = (Inr (Some m), s) \<and>
             label_map s fs' = (Inr (Some m), s) \<and>
             (\<forall>l. dict_get m l =
                    map_option (\<lambda>r. r ! 3) (find (\<lambda>r. key_eq (r ! 2) l) (frame_values df))) \<and>
             (\<forall>name. dict_get m (CStr name) =
                    map_option (\<lambda>r. r ! 3) (find (\<lambda>r. r ! 2 = CStr name) (frame_values df))) \<and>
             (\<forall>i<length (frame_values df). \<forall>j<length (frame_values df).
                 (\<forall>k<i. \<not> key_eq (frame_values df ! k ! 2) (frame_values df ! i ! 2)) \<and>
                 key_eq (frame_values df ! i ! 2) (frame_values df ! j ! 2) \<longrightarrow>
                 dict_get m (frame_values df ! j ! 2) = Some (frame_values df ! i ! 3))"
proof -
  obtain df' d m n where df': "read_csv fs = Inr df'" and
    lm: "\<forall>l. dict_get m l =
           map_option (\<lambda>r. r ! 3) (find (\<lambda>r. key_eq (r ! 2) l) (frame_values df'))" and
    s: "s = \<lparr>basedir = bd,
          data = Some (map (\<lambda>r. (r ! 0, r ! 1, r ! 2, r ! 3, r ! 4)) (frame_values df')),
          metadata = Some df', label_map_cache = Some m, can_parse_cache = Some True,
          numfolds = Some (add_one n)\<rparr>"
    by (rule validated[OF ok])
  from df' table have eq: "df' = df" by simp
  let ?rows = "frame_values df"
  have cache: "can_parse_cache s = Some True" and lmc: "label_map_cache s = Some m"
    unfolding s by simp_all
  have a: "label_map (KoeParser bd) fs = (Inr (Some m), s)"
    by (simp add: label_map_def ok lmc)
  have b: "label_map s fs' = (Inr (Some m), s)"
    by (simp add: label_map_def can_parse_cached[OF cache] lmc)
  have c: "\<forall>l. dict_get m l = map_option (\<lambda>r. r ! 3) (find (\<lambda>r. key_eq (r ! 2) l) ?rows)"
    using lm unfolding eq .
  have c': "\<forall>name. dict_get m (CStr name) =
      map_option (\<lambda>r. r ! 3) (find (\<lambda>r. r ! 2 = CStr name) ?rows)"
    using c by (simp add: key_eq_CStr)
  have d: "dict_get m (?rows ! j ! 2) = Some (?rows ! i ! 3)"
    if i: "i < length ?rows" and first: "\<forall>k<i. \<not> key_eq (?rows ! k ! 2) (?rows ! i ! 2)"
      and same: "key_eq (?rows ! i ! 2) (?rows ! j ! 2)" for i j
  proof -
    have "\<not> key_eq (?rows ! k ! 2) (?rows ! j ! 2)" if "k < i" for k
    proof
      assume "key_eq (?rows ! k ! 2) (?rows ! j ! 2)"
      with same have "key_eq (?rows ! k ! 2) (?rows ! i ! 2)"
        by (blast intro: key_eq_trans key_eq_sym)
      with first that show False by blast
    qed
    with i same have "find (\<lambda>r. key_eq (r ! 2) (?rows ! j ! 2)) ?rows = Some (?rows ! i)"
      unfolding find_Some_iff by blast
    then show ?thesis using c by simp
  qed
  from a b c c' d show ?thesis by blast
qed

theorem label_map_first_occurrence_witness:
  "\<exists>m. label_map (KoeParser ''data'') example_dir = (Inr (Some m), example_parser) \<and>
       dict_get m (CStr ''dog'') = Some (CInt 5) \<and> dict_get m (CStr ''cat'') = Some (CInt 7) \<and>
       dict_get m (CStr ''cow'') = None"
proof -
  have t: "read_csv example_dir = Inr example_table" by (simp add: example_dir_def)
  from label_map_first_occurrence[OF example_can_parse t] obtain m where
    a: "label_map (KoeParser ''data'') example_dir = (Inr (Some m), example_parser)" and
    c: "\<forall>name. dict_get m (CStr name) =
          map_option (\<lambda>r. r ! 3) (find (\<lambda>r. r ! 2 = CStr name) (frame_values example_table))"
    by blast
  have "dict_get m (CStr ''dog'') = Some (CInt 5)" "dict_get m (CStr ''cat'') = Some (CInt 7)"
    "dict_get m (CStr ''cow'') = None"
    by (simp_all add: c example_table_def)
  with a show ?thesis by blast
qed

text \<open>
  The claim C3 as stated (one binding for each nominal label, to the code of its first
  occurrence) fails on a validated table whose two label cells are blank: the map holds
  two NaN keys, the second bound to the code 9 of the second row and not to the code 5 of
  the first.
\<close>

theorem label_map_blank_labels_counterexample:
  "fst (can_parse (KoeParser ''data'') (two_files nan_label_table)) = Inr True \<and>
   fst (label_map (KoeParser ''data'') (two_files nan_label_table)) =
     Inr (Some [(CNaN 0, CInt 5), (CNaN 1, CInt 9)])"
  by code_simp












end
